theory Spec2Isabelle
  imports
    Complex_Main
    "HOL-Library.Char_ord"
    "HOL-Library.List_Lexorder"
    "HOL-Library.Product_Lexorder"
    "HOL-Library.Multiset"
begin

section \<open>Python values used by the scripts\<close>

text \<open>
  The scripts under \<^verbatim>\<open>skills/exam-question-processor/scripts\<close> are Python. A Python
  \<^verbatim>\<open>str\<close> is modelled by \<^typ>\<open>string\<close>; the model covers ASCII file names, where a
  character is its code point, \<^verbatim>\<open>str.lower\<close> changes \<^verbatim>\<open>A-Z\<close> only and the digits
  of \<^verbatim>\<open>\d\<close> and of \<^verbatim>\<open>str.isdigit\<close> are \<^verbatim>\<open>0-9\<close>. The order \<open><\<close> on
  \<^typ>\<open>string\<close> is the lexicographic order by code point, which is Python's order on \<^verbatim>\<open>str\<close>.
  An exception that leaves a function is a value \<open>Inl e\<close> of a sum type.
\<close>

datatype py_error = ZeroDivisionError | AttributeError | TypeError

definition lower_char :: "char \<Rightarrow> char" where
  "lower_char c =
     (let n = (of_char c :: nat) in if 65 \<le> n \<and> n \<le> 90 then char_of (n + 32) else c)"

definition py_lower :: "string \<Rightarrow> string" where
  "py_lower s = map lower_char s"

text \<open>\<^verbatim>\<open>s.rfind(c)\<close>: the last index of \<open>c\<close>, \<open>None\<close> for Python's \<open>-1\<close>.\<close>

definition rfind :: "char \<Rightarrow> string \<Rightarrow> nat option" where
  "rfind c s =
     (if c \<in> set s then Some (length s - 1 - length (takeWhile (\<lambda>x. x \<noteq> c) (rev s)))
      else None)"

subsection \<open>pathlib\<close>

text \<open>
  A \<^verbatim>\<open>Path\<close> is modelled by the string it was built from, read as a POSIX path. Its
  components are the pieces between slashes, without the empty ones and the \<^verbatim>\<open>.\<close> ones;
  \<^verbatim>\<open>Path.parts\<close> puts the root in front of them. \<^verbatim>\<open>Path.name\<close> is the last
  component, \<^verbatim>\<open>Path.suffix\<close> and \<^verbatim>\<open>Path.stem\<close> cut the name at its last dot when
  that dot is neither the first nor the last character.
\<close>

fun split_on :: "char \<Rightarrow> string \<Rightarrow> string list" where
  "split_on c [] = [[]]"
| "split_on c (x # xs) =
     (if x = c then [] # split_on c xs
      else (case split_on c xs of [] \<Rightarrow> [[x]] | y # ys \<Rightarrow> (x # y) # ys))"

definition path_components :: "string \<Rightarrow> string list" where
  "path_components p = filter (\<lambda>s. s \<noteq> [] \<and> s \<noteq> ''.'') (split_on CHR ''/'' p)"

definition path_parts :: "string \<Rightarrow> string list" where
  "path_parts p =
     (case p of [] \<Rightarrow> path_components p
      | x # xs \<Rightarrow> (if x = CHR ''/'' then [''/''] else []) @ path_components p)"

definition path_name :: "string \<Rightarrow> string" where
  "path_name p = (let ps = path_components p in if ps = [] then [] else last ps)"

definition name_suffix :: "string \<Rightarrow> string" where
  "name_suffix name =
     (case rfind CHR ''.'' name of
        None \<Rightarrow> []
      | Some i \<Rightarrow> if 0 < i \<and> i + 1 < length name then drop i name else [])"

definition name_stem :: "string \<Rightarrow> string" where
  "name_stem name =
     (case rfind CHR ''.'' name of
        None \<Rightarrow> name
      | Some i \<Rightarrow> if 0 < i \<and> i + 1 < length name then take i name else name)"

definition path_suffix :: "string \<Rightarrow> string" where
  "path_suffix p = name_suffix (path_name p)"

definition path_stem :: "string \<Rightarrow> string" where
  "path_stem p = name_stem (path_name p)"

section \<open>image\_text\_extractor.py: the media type of an image\<close>

text \<open>
  \<^verbatim>\<open>ImageTextExtractor.get_image_mime_type\<close>: the lower-cased suffix of the path is looked
  up in a dictionary with the default \<^verbatim>\<open>'image/jpeg'\<close>.
\<close>

definition mime_types :: "(string \<times> string) list" where
  "mime_types =
     [(''.jpg'', ''image/jpeg''),
      (''.jpeg'', ''image/jpeg''),
      (''.png'', ''image/png''),
      (''.gif'', ''image/gif''),
      (''.webp'', ''image/webp''),
      (''.bmp'', ''image/bmp'')]"

definition get_image_mime_type :: "string \<Rightarrow> string" where
  "get_image_mime_type image_path =
     (let ext = py_lower (path_suffix image_path)
      in case map_of mime_types ext of Some t \<Rightarrow> t | None \<Rightarrow> ''image/jpeg'')"

section \<open>join\_questions.py and extract\_images.py: natural ordering\<close>














text \<open>
  \<^verbatim>\<open>image_files = sorted(folder.glob(file_pattern))\<close> in
  \<^verbatim>\<open>batch_extract_from_folder\<close> has no key: it uses the order of \<^verbatim>\<open>Path\<close>, which
  compares the \<^verbatim>\<open>parts\<close> of two paths as lists of strings.
\<close>

definition discover_images :: "string list \<Rightarrow> string list" where
  "discover_images globbed = sort_key path_parts globbed"




section \<open>image\_text\_extractor.py: results and the summary report\<close>

text \<open>
  \<^verbatim>\<open>extract_text_from_image\<close> returns a dictionary. With \<^verbatim>\<open>"success": True\<close> it has the
  keys \<^verbatim>\<open>image_path\<close>, \<^verbatim>\<open>extracted_text\<close>, \<^verbatim>\<open>model\<close>, \<^verbatim>\<open>usage\<close> and
  \<^verbatim>\<open>attempts\<close>; \<^verbatim>\<open>model\<close> and \<^verbatim>\<open>usage\<close> are read from the response with
  \<^verbatim>\<open>result.get\<close> and are \<^verbatim>\<open>None\<close> when the response has no such field. With
  \<^verbatim>\<open>"success": False\<close> it has \<^verbatim>\<open>image_path\<close>, \<^verbatim>\<open>error\<close> and \<^verbatim>\<open>error_type\<close>,
  both \<^verbatim>\<open>None\<close> when no attempt was made. The \<^verbatim>\<open>usage\<close> object is a dictionary that
  may lack \<^verbatim>\<open>total_tokens\<close>.
\<close>

record usage_dict =
  total_tokens :: "int option"

datatype result =
  success: Success (image_path: string) (extracted_text: string) (model: "string option")
    (usage: "usage_dict option") (attempts: nat)
| Failure (image_path: string) (error: "string option") (error_type: "string option")

text \<open>
  \<^verbatim>\<open>_create_summary_report\<close> writes \<^verbatim>\<open>summary_report.txt\<close>. The record holds the values it
  writes, the success rate before it is formatted. The rate is computed by
  \<^verbatim>\<open>success_count/len(results)*100\<close> after the counts and before the token total, so an
  empty list raises \<^verbatim>\<open>ZeroDivisionError\<close> there. The token total is
  \<^verbatim>\<open>sum(r.get("usage", {}).get("total_tokens", 0) for r in results if r["success"])\<close>: a
  successful result always has the key \<^verbatim>\<open>usage\<close>, so a \<^verbatim>\<open>None\<close> stored under it raises
  \<^verbatim>\<open>AttributeError\<close>.
\<close>

record summary_report =
  total_images :: int
  successful :: int
  failed :: int
  success_rate :: rat
  failed_images :: "(string \<times> string option) list"
  total_tokens_used :: int

definition result_tokens :: "result \<Rightarrow> py_error + int" where
  "result_tokens r =
     (case usage r of
        None \<Rightarrow> Inl AttributeError
      | Some u \<Rightarrow> Inr (case total_tokens u of None \<Rightarrow> 0 | Some t \<Rightarrow> t))"

fun sum_tokens :: "result list \<Rightarrow> py_error + int" where
  "sum_tokens [] = Inr 0"
| "sum_tokens (r # rs) =
     (if success r then
        (case result_tokens r of
           Inl e \<Rightarrow> Inl e
         | Inr t \<Rightarrow> (case sum_tokens rs of Inl e \<Rightarrow> Inl e | Inr s \<Rightarrow> Inr (t + s)))
      else sum_tokens rs)"

definition create_summary_report :: "result list \<Rightarrow> py_error + summary_report" where
  "create_summary_report results =
     (let success_count = int (length (filter success results));
          fail_count = int (length results) - success_count
      in if length results = 0 then Inl ZeroDivisionError
         else
           (case sum_tokens results of
              Inl e \<Rightarrow> Inl e
            | Inr tokens \<Rightarrow>
                Inr \<lparr>total_images = int (length results),
                     successful = success_count,
                     failed = fail_count,
                     success_rate = of_int success_count / of_int (int (length results)) * 100,
                     failed_images =
                       (if fail_count > 0
                        then map (\<lambda>r. (path_name (image_path r), error r))
                               (filter (\<lambda>r. \<not> success r) results)
                        else []),
                     total_tokens_used = tokens\<rparr>))"

text \<open>The token usage of one outcome, as the summary counts it: that of a success.\<close>

definition token_usage :: "result \<Rightarrow> int" where
  "token_usage r =
     (case r of
        Success p t m u a \<Rightarrow>
          (case u of None \<Rightarrow> 0 | Some d \<Rightarrow> (case total_tokens d of None \<Rightarrow> 0 | Some n \<Rightarrow> n))
      | Failure p e ty \<Rightarrow> 0)"

section \<open>image\_text\_extractor.py: one extraction\<close>

text \<open>
  The network is a function \<open>post\<close>: for the number of the attempt and the model named in
  the payload it gives what the body of the \<^verbatim>\<open>try\<close> block meets, from
  \<^verbatim>\<open>requests.post\<close> to the reading of the response:
  \<^item> \<open>Ok r\<close>: the request succeeded and
    \<^verbatim>\<open>result["choices"][0]["message"]["content"]\<close> is there; \<open>r\<close> holds it with
    \<^verbatim>\<open>result.get("model")\<close> and \<^verbatim>\<open>result.get("usage")\<close>;
  \<^item> \<open>HTTPError msg status\<close>: \<^verbatim>\<open>raise_for_status\<close> raised; \<open>status\<close> is the status
    code of \<^verbatim>\<open>e.response\<close>, \<open>None\<close> when it has none;
  \<^item> \<open>RequestException msg ty\<close>: another exception of \<^verbatim>\<open>requests\<close>, such as a
    timeout or a connection error, with its message and the name of its type;
  \<^item> \<open>OtherException msg ty\<close>: any other exception, such as the \<^verbatim>\<open>KeyError\<close> of a
    response without \<^verbatim>\<open>choices\<close>.

  The rest of the payload (prompt, image, temperature, token limit) is the same in every
  attempt of one call. What a call does besides returning is recorded as a list of events:
  the requests it posts and the seconds it sleeps.
\<close>

record response =
  content :: string
  response_model :: "string option"
  response_usage :: "usage_dict option"

datatype post_outcome =
  Ok response
| HTTPError string "nat option"
| RequestException string string
| OtherException string string

datatype event = Post nat string | Sleep nat

definition and_then :: "event list \<Rightarrow> result \<times> event list \<Rightarrow> result \<times> event list" where
  "and_then evs rt = (fst rt, evs @ snd rt)"

text \<open>
  The loop \<^verbatim>\<open>for attempt, current_model in enumerate(models_to_try, 1)\<close>. \<open>n\<close> is
  \<^verbatim>\<open>len(models_to_try)\<close>, the list holds the models from the current one on.
  \<^verbatim>\<open>continue\<close> goes on with the next model of the list, \<^verbatim>\<open>break\<close> and the end of
  the list lead to the failure built from \<^verbatim>\<open>last_error\<close> and \<^verbatim>\<open>last_error_type\<close>.
  An \<^verbatim>\<open>HTTPError\<close> without a status code falls through the handler, which is a
  \<^verbatim>\<open>continue\<close> without a sleep.
\<close>

fun try_models ::
  "(nat \<Rightarrow> string \<Rightarrow> post_outcome) \<Rightarrow> string \<Rightarrow> bool \<Rightarrow> int \<Rightarrow> nat \<Rightarrow> nat \<Rightarrow> string list
     \<Rightarrow> string option \<Rightarrow> string option \<Rightarrow> result \<times> event list" where
  "try_models post path retry_with_other_models max_retries n attempt []
     last_error last_error_type =
     (Failure path last_error last_error_type, [])"
| "try_models post path retry_with_other_models max_retries n attempt
     (current_model # later_models) last_error last_error_type =
     (case post attempt current_model of
        Ok r \<Rightarrow>
          (Success path (content r) (response_model r) (response_usage r) attempt,
           [Post attempt current_model])
      | HTTPError msg status \<Rightarrow>
          (case status of
             None \<Rightarrow>
               and_then [Post attempt current_model]
                 (try_models post path retry_with_other_models max_retries n
                    (attempt + 1) later_models (Some msg) (Some ''HTTPError''))
           | Some status_code \<Rightarrow>
               if status_code = 429 then
                 (if retry_with_other_models \<and> attempt < n then
                    and_then [Post attempt current_model, Sleep 2]
                      (try_models post path retry_with_other_models max_retries n
                         (attempt + 1) later_models (Some msg) (Some ''HTTPError''))
                  else
                    (Failure path (Some msg) (Some ''HTTPError''),
                     [Post attempt current_model]))
               else if status_code = 400 then
                 (if retry_with_other_models \<and> attempt < n then
                    and_then [Post attempt current_model, Sleep 1]
                      (try_models post path retry_with_other_models max_retries n
                         (attempt + 1) later_models (Some msg) (Some ''HTTPError''))
                  else
                    (Failure path (Some msg) (Some ''HTTPError''),
                     [Post attempt current_model]))
               else
                 (Failure path (Some msg) (Some ''HTTPError''),
                  [Post attempt current_model]))
      | RequestException msg ty \<Rightarrow>
          (if int attempt < max_retries then
             and_then [Post attempt current_model, Sleep (2 ^ attempt)]
               (try_models post path retry_with_other_models max_retries n
                  (attempt + 1) later_models (Some msg) (Some ty))
           else (Failure path (Some msg) (Some ty), [Post attempt current_model]))
      | OtherException msg ty \<Rightarrow>
          (Failure path (Some msg) (Some ty), [Post attempt current_model]))"

text \<open>
  \<^verbatim>\<open>extract_text_from_image\<close>. \<open>encode\<close> stands for reading and encoding the file:
  \<open>Inl (msg, ty)\<close> is an exception with its message and type name, \<open>Inr\<close> the base64
  text. \<^verbatim>\<open>[model] if model else self.vision_models.copy()\<close> takes the roster for
  \<^verbatim>\<open>None\<close> and for the empty string. The parameters \<^verbatim>\<open>image_path\<close> and
  \<^verbatim>\<open>model\<close> are written \<open>path\<close> and \<open>model_arg\<close>, the keys of the result keep
  their names.
\<close>

definition models_to_try :: "string list \<Rightarrow> string option \<Rightarrow> string list" where
  "models_to_try vision_models model_arg =
     (case model_arg of
        None \<Rightarrow> vision_models
      | Some m \<Rightarrow> if m = [] then vision_models else [m])"

definition extract_text_from_image ::
  "string list \<Rightarrow> (string \<Rightarrow> (string \<times> string) + string) \<Rightarrow> (nat \<Rightarrow> string \<Rightarrow> post_outcome)
     \<Rightarrow> string \<Rightarrow> string option \<Rightarrow> bool \<Rightarrow> int \<Rightarrow> result \<times> event list" where
  "extract_text_from_image vision_models encode post path model_arg
     retry_with_other_models max_retries =
     (case encode path of
        Inl (msg, ty) \<Rightarrow>
          (Failure path (Some (''Failed to read image: '' @ msg)) (Some ty), [])
      | Inr base64_image \<Rightarrow>
          try_models post path retry_with_other_models max_retries
            (length (models_to_try vision_models model_arg)) 1
            (models_to_try vision_models model_arg) None None)"

text \<open>The roster of \<^verbatim>\<open>ImageTextExtractor.__init__\<close>.\<close>

definition default_vision_models :: "string list" where
  "default_vision_models = [''google/gemini-2.0-flash-001'']"

text \<open>The requests of a trace, and the models they were sent to.\<close>

fun posted_models :: "event list \<Rightarrow> string list" where
  "posted_models [] = []"
| "posted_models (Post a m # evs) = m # posted_models evs"
| "posted_models (Sleep s # evs) = posted_models evs"

section \<open>extract\_images.py: one extraction with retries\<close>

text \<open>
  \<^verbatim>\<open>extract_text_from_image\<close> of \<^verbatim>\<open>extract_images.py\<close> has one model and the loop
  \<^verbatim>\<open>for attempt in range(max_retries)\<close>. What one attempt meets:
  \<^item> \<open>RateLimited\<close>: a response with status 429;
  \<^item> \<open>ServerError c\<close>: a response with a status \<open>c\<close> of 500 or more;
  \<^item> \<open>Content t\<close>: a good response whose first choice has the content \<open>t\<close>;
  \<^item> \<open>NoContent\<close>: a good response without choices;
  \<^item> \<open>Timeout\<close>: \<^verbatim>\<open>requests.exceptions.Timeout\<close>;
  \<^item> \<open>RequestError msg\<close>: another \<^verbatim>\<open>RequestException\<close>, which includes the
    \<^verbatim>\<open>HTTPError\<close> that \<^verbatim>\<open>raise_for_status\<close> raises for a status from 400 to 499;
  \<^item> \<open>Unexpected msg\<close>: any other exception.

  The function returns the pair \<^verbatim>\<open>(text, None)\<close> or \<^verbatim>\<open>(None, error)\<close>; the error
  messages are the constructors of \<open>extract_error\<close>.
\<close>

datatype attempt_result =
  RateLimited
| ServerError nat
| Content string
| NoContent
| Timeout
| RequestError string
| Unexpected string

datatype extract_error =
  FailedToEncode string
| RateLimitExceeded
| ServerErrorAfterRetries nat
| NoContentInResponse
| RequestTimeout
| NetworkError string
| UnexpectedError string
| FailedAfterAllRetries

definition after ::
  "event list \<Rightarrow> (extract_error + string) \<times> event list \<Rightarrow> (extract_error + string) \<times> event list" where
  "after evs rt = (fst rt, evs @ snd rt)"

text \<open>\<open>left\<close> counts the iterations of the loop that remain, the current one included.\<close>

fun retry_loop ::
  "(nat \<Rightarrow> attempt_result) \<Rightarrow> string \<Rightarrow> int \<Rightarrow> nat \<Rightarrow> nat
     \<Rightarrow> (extract_error + string) \<times> event list" where
  "retry_loop post model_name max_retries attempt 0 = (Inl FailedAfterAllRetries, [])"
| "retry_loop post model_name max_retries attempt (Suc left) =
     (case post attempt of
        RateLimited \<Rightarrow>
          if int attempt < max_retries - 1 then
            after [Post attempt model_name, Sleep 60]
              (retry_loop post model_name max_retries (attempt + 1) left)
          else (Inl RateLimitExceeded, [Post attempt model_name])
      | ServerError c \<Rightarrow>
          if int attempt < max_retries - 1 then
            after [Post attempt model_name, Sleep (2 ^ attempt)]
              (retry_loop post model_name max_retries (attempt + 1) left)
          else (Inl (ServerErrorAfterRetries c), [Post attempt model_name])
      | Content t \<Rightarrow> (Inr t, [Post attempt model_name])
      | NoContent \<Rightarrow> (Inl NoContentInResponse, [Post attempt model_name])
      | Timeout \<Rightarrow>
          if int attempt < max_retries - 1 then
            after [Post attempt model_name, Sleep (2 ^ attempt)]
              (retry_loop post model_name max_retries (attempt + 1) left)
          else (Inl RequestTimeout, [Post attempt model_name])
      | RequestError msg \<Rightarrow>
          if int attempt < max_retries - 1 then
            after [Post attempt model_name, Sleep (2 ^ attempt)]
              (retry_loop post model_name max_retries (attempt + 1) left)
          else (Inl (NetworkError msg), [Post attempt model_name])
      | Unexpected msg \<Rightarrow> (Inl (UnexpectedError msg), [Post attempt model_name]))"

definition extract_images_text ::
  "(string \<Rightarrow> string + string) \<Rightarrow> (nat \<Rightarrow> attempt_result) \<Rightarrow> string \<Rightarrow> string \<Rightarrow> int
     \<Rightarrow> (extract_error + string) \<times> event list" where
  "extract_images_text encode post path model_name max_retries =
     (case encode path of
        Inl msg \<Rightarrow> (Inl (FailedToEncode msg), [])
      | Inr base64_image \<Rightarrow> retry_loop post model_name max_retries 0 (nat max_retries))"

definition transient :: "attempt_result \<Rightarrow> bool" where
  "transient a =
     (case a of ServerError c \<Rightarrow> True | Timeout \<Rightarrow> True | RequestError msg \<Rightarrow> True
      | _ \<Rightarrow> False)"

section \<open>image\_text\_extractor.py: the batch with its retry queue\<close>

text \<open>
  The output folder is a map from file names to what the batch writes there. A success
  writes \<^verbatim>\<open><stem>_extracted.txt\<close> with the name of the image, the model, the retry
  round, the text and a line with the tokens used; that line is
  \<^verbatim>\<open>result['usage'].get('total_tokens', 'N/A')\<close>, which raises \<^verbatim>\<open>AttributeError\<close>
  when \<^verbatim>\<open>usage\<close> is \<^verbatim>\<open>None\<close> and leaves the file without it. A failure in the last
  round writes \<^verbatim>\<open><stem>_error.txt\<close>. \<open>SummaryCut\<close> is a summary whose writing was
  ended by an exception, \<open>OtherFile\<close> any other content.
\<close>

datatype tokens_line = TokensUsed int | TokensNA | TokensMissing

datatype artifact =
  Extracted string "string option" nat string tokens_line
| ErrorFile string "string option" "string option" nat
| SummaryFile summary_report
| SummaryCut
| OtherFile string

definition extracted_name :: "string \<Rightarrow> string" where
  "extracted_name image_file = path_stem image_file @ ''_extracted.txt''"

definition error_name :: "string \<Rightarrow> string" where
  "error_name image_file = path_stem image_file @ ''_error.txt''"

text \<open>
  The state of the loops: \<^verbatim>\<open>all_results\<close>, \<^verbatim>\<open>retry_queue\<close>, the output folder and
  the events so far, each with its round and its image. Printing and the sleeps between
  images and between rounds change none of them and are left out.
\<close>

record batch_state =
  all_results :: "result list"
  retry_queue :: "string list"
  files :: "string \<rightharpoonup> artifact"
  trace :: "(nat \<times> string \<times> event) list"

text \<open>
  The body of \<^verbatim>\<open>for i, image_file in enumerate(current_batch, 1)\<close> in round
  \<^verbatim>\<open>retry_round\<close>. \<open>extract r f\<close> is the call of \<^verbatim>\<open>extract_text_from_image\<close> for
  image \<open>f\<close> in round \<open>r\<close>. An exception leaves the loops with the state it was raised in.
\<close>

definition process_image ::
  "(nat \<Rightarrow> string \<Rightarrow> result \<times> event list) \<Rightarrow> int \<Rightarrow> nat \<Rightarrow> string \<Rightarrow> batch_state
     \<Rightarrow> (py_error \<times> batch_state) + batch_state" where
  "process_image extract max_retry_rounds retry_round image_file st =
     (let res = fst (extract retry_round image_file);
          st1 = st\<lparr>trace := trace st
                   @ map (\<lambda>e. (retry_round, image_file, e)) (snd (extract retry_round image_file))\<rparr>
      in if success res then
           (case usage res of
              None \<Rightarrow>
                Inl (AttributeError,
                     st1\<lparr>files := (files st1)(extracted_name image_file \<mapsto>
                            Extracted (path_name image_file) (model res) (retry_round + 1)
                              (extracted_text res) TokensMissing)\<rparr>)
            | Some u \<Rightarrow>
                Inr (st1\<lparr>files := (files st1)(extracted_name image_file \<mapsto>
                            Extracted (path_name image_file) (model res) (retry_round + 1)
                              (extracted_text res)
                              (case total_tokens u of None \<Rightarrow> TokensNA | Some t \<Rightarrow> TokensUsed t)),
                         all_results := all_results st1 @ [res]\<rparr>))
         else if int retry_round < max_retry_rounds - 1 then
           Inr (st1\<lparr>retry_queue := retry_queue st1 @ [image_file]\<rparr>)
         else
           Inr (st1\<lparr>files := (files st1)(error_name image_file \<mapsto>
                       ErrorFile (path_name image_file) (error res) (error_type res)
                         (retry_round + 1)),
                    all_results := all_results st1 @ [res]\<rparr>))"

fun process_batch ::
  "(nat \<Rightarrow> string \<Rightarrow> result \<times> event list) \<Rightarrow> int \<Rightarrow> nat \<Rightarrow> string list \<Rightarrow> batch_state
     \<Rightarrow> (py_error \<times> batch_state) + batch_state" where
  "process_batch extract max_retry_rounds retry_round [] st = Inr st"
| "process_batch extract max_retry_rounds retry_round (image_file # current_batch) st =
     (case process_image extract max_retry_rounds retry_round image_file st of
        Inl x \<Rightarrow> Inl x
      | Inr st' \<Rightarrow> process_batch extract max_retry_rounds retry_round current_batch st')"

text \<open>
  \<^verbatim>\<open>while retry_queue and retry_round < max_retry_rounds\<close>: the queue becomes the
  current batch, is emptied and filled again by the failures of the round.
\<close>

function run_rounds ::
  "(nat \<Rightarrow> string \<Rightarrow> result \<times> event list) \<Rightarrow> int \<Rightarrow> nat \<Rightarrow> batch_state
     \<Rightarrow> (py_error \<times> batch_state) + batch_state" where
  "run_rounds extract max_retry_rounds retry_round st =
     (if retry_queue st \<noteq> [] \<and> int retry_round < max_retry_rounds then
        (case process_batch extract max_retry_rounds retry_round (retry_queue st)
                (st\<lparr>retry_queue := []\<rparr>) of
           Inl x \<Rightarrow> Inl x
         | Inr st' \<Rightarrow> run_rounds extract max_retry_rounds (retry_round + 1) st')
      else Inr st)"
  by pat_completeness auto
termination
  by (relation "measure (\<lambda>(extract, max_retry_rounds, retry_round, st).
        nat (max_retry_rounds - int retry_round))") auto

text \<open>
  \<^verbatim>\<open>batch_extract_from_folder\<close>. \<open>globbed\<close> is what \<^verbatim>\<open>folder.glob(file_pattern)\<close>
  yields, \<open>files0\<close> the output folder before the run. The batch calls
  \<^verbatim>\<open>extract_text_from_image\<close> with \<^verbatim>\<open>retry_with_other_models=True\<close> and
  \<^verbatim>\<open>max_retries=3\<close>; \<open>encode r\<close> and \<open>post r f\<close> are the file system and the network as
  image \<open>f\<close> meets them in round \<open>r\<close>. The run ends with the list it returns or the
  exception that leaves it, the output folder and the events.
\<close>

definition extract_in_round ::
  "string list \<Rightarrow> (nat \<Rightarrow> string \<Rightarrow> (string \<times> string) + string)
     \<Rightarrow> (nat \<Rightarrow> string \<Rightarrow> nat \<Rightarrow> string \<Rightarrow> post_outcome) \<Rightarrow> string option
     \<Rightarrow> nat \<Rightarrow> string \<Rightarrow> result \<times> event list" where
  "extract_in_round roster encode post model_arg r f =
     extract_text_from_image roster (encode r) (post r f) f model_arg True 3"

record batch_run =
  returned :: "py_error + result list"
  files_after :: "string \<rightharpoonup> artifact"
  events :: "(nat \<times> string \<times> event) list"

definition files_to_process :: "bool \<Rightarrow> (string \<rightharpoonup> artifact) \<Rightarrow> string list \<Rightarrow> string list" where
  "files_to_process skip_existing files0 image_files =
     (if skip_existing
      then filter (\<lambda>image_file. files0 (extracted_name image_file) = None) image_files
      else image_files)"

definition batch_extract_from_folder ::
  "string list \<Rightarrow> (nat \<Rightarrow> string \<Rightarrow> (string \<times> string) + string)
     \<Rightarrow> (nat \<Rightarrow> string \<Rightarrow> nat \<Rightarrow> string \<Rightarrow> post_outcome)
     \<Rightarrow> string list \<Rightarrow> (string \<rightharpoonup> artifact) \<Rightarrow> string option \<Rightarrow> bool \<Rightarrow> int \<Rightarrow> batch_run" where
  "batch_extract_from_folder roster encode post globbed files0 model_arg skip_existing
     max_retry_rounds =
     (let image_files = discover_images globbed in
      if image_files = [] then \<lparr>returned = Inr [], files_after = files0, events = []\<rparr>
      else
        let image_files = files_to_process skip_existing files0 image_files in
        if image_files = [] then \<lparr>returned = Inr [], files_after = files0, events = []\<rparr>
        else
          (case run_rounds (extract_in_round roster encode post model_arg) max_retry_rounds 0
                  \<lparr>all_results = [], retry_queue = image_files, files = files0, trace = []\<rparr> of
             Inl (e, st) \<Rightarrow> \<lparr>returned = Inl e, files_after = files st, events = trace st\<rparr>
           | Inr st \<Rightarrow>
               (case create_summary_report (all_results st) of
                  Inl e \<Rightarrow>
                    \<lparr>returned = Inl e,
                     files_after = (files st)(''summary_report.txt'' \<mapsto> SummaryCut),
                     events = trace st\<rparr>
                | Inr s \<Rightarrow>
                    \<lparr>returned = Inr (all_results st),
                     files_after = (files st)(''summary_report.txt'' \<mapsto> SummaryFile s),
                     events = trace st\<rparr>)))"

text \<open>The requests of a run that were made for one image.\<close>

definition requests_for :: "string \<Rightarrow> (nat \<times> string \<times> event) list \<Rightarrow> (nat \<times> string \<times> event) list" where
  "requests_for image_file evs =
     filter (\<lambda>(r, f, e). f = image_file \<and> (case e of Post a m \<Rightarrow> True | Sleep s \<Rightarrow> False)) evs"

text \<open>
  Notions used to state the properties of a run. The state an outcome of the loops ends
  in, whether it returned or raised; a network whose successful responses all carry a
  \<^verbatim>\<open>usage\<close> object; an artifact that is the error file of a given number of rounds.
\<close>

definition final_state :: "(py_error \<times> batch_state) + batch_state \<Rightarrow> batch_state" where
  "final_state out = (case out of Inl (e, st) \<Rightarrow> st | Inr st \<Rightarrow> st)"





section \<open>Facts about paths\<close>

lemma split_on_not_Nil: "split_on c s \<noteq> []"
  by (induction s) (auto split: list.splits)

lemma split_on_no_sep: "c \<notin> set s \<Longrightarrow> split_on c s = [s]"
  by (induction s) auto

lemma split_on_append: "split_on c (xs @ c # ys) = split_on c xs @ split_on c ys"
proof (induction xs)
  case Nil
  show ?case by simp
next
  case (Cons x xs)
  show ?case
  proof (cases "x = c")
    case True
    with Cons show ?thesis by simp
  next
    case False
    obtain y ys' where s: "split_on c xs = y # ys'"
      using split_on_not_Nil [of c xs] by (cases "split_on c xs") auto
    with False Cons show ?thesis by simp
  qed
qed

lemma rfind_last_dot:
  assumes "c \<notin> set e"
  shows "rfind c (b @ c # e) = Some (length b)"
proof -
  have "takeWhile (\<lambda>x. x \<noteq> c) (rev e @ c # rev b) =
          rev e @ takeWhile (\<lambda>x. x \<noteq> c) (c # rev b)"
    by (rule takeWhile_append2) (use assms in auto)
  then show ?thesis by (simp add: rfind_def)
qed

lemma name_suffix_ext:
  assumes "b \<noteq> []" "e \<noteq> []" "CHR ''.'' \<notin> set e"
  shows "name_suffix (b @ CHR ''.'' # e) = CHR ''.'' # e"
  using assms by (simp add: name_suffix_def rfind_last_dot)

lemma name_stem_ext:
  assumes "b \<noteq> []" "e \<noteq> []" "CHR ''.'' \<notin> set e"
  shows "name_stem (b @ CHR ''.'' # e) = b"
  using assms by (simp add: name_stem_def rfind_last_dot)

lemma path_name_in_dir:
  assumes "n \<noteq> []" "n \<noteq> ''.''" "CHR ''/'' \<notin> set n" "d = [] \<or> last d = CHR ''/''"
  shows "path_name (d @ n) = n"
proof (cases "d = []")
  case True
  with assms show ?thesis
    by (simp add: path_name_def path_components_def split_on_no_sep)
next
  case False
  with assms obtain d' where d: "d = d' @ [CHR ''/'']"
    by (metis append_butlast_last_id)
  have "split_on CHR ''/'' (d @ n) = split_on CHR ''/'' d' @ [n]"
    using assms(3) by (simp add: d split_on_append split_on_no_sep)
  with assms(1,2) show ?thesis
    by (simp add: path_name_def path_components_def)
qed

section \<open>The media-type lookup is total\<close>

lemma mime_type_range:
  "get_image_mime_type p \<in>
     {''image/jpeg'', ''image/png'', ''image/gif'', ''image/webp'', ''image/bmp''}"
proof (cases "map_of mime_types (py_lower (path_suffix p))")
  case None
  then show ?thesis by (simp add: get_image_mime_type_def)
next
  case (Some t)
  then have "(py_lower (path_suffix p), t) \<in> set mime_types"
    by (rule map_of_SomeD)
  then have "t \<in> {''image/jpeg'', ''image/png'', ''image/gif'', ''image/webp'', ''image/bmp''}"
    by (auto simp: mime_types_def)
  with Some show ?thesis by (simp add: get_image_mime_type_def)
qed

lemma mime_type_of_ext:
  assumes "b \<noteq> []" "CHR ''/'' \<notin> set b" "e \<noteq> []" "CHR ''/'' \<notin> set e" "CHR ''.'' \<notin> set e"
    and "d = [] \<or> last d = CHR ''/''"
  shows "get_image_mime_type (d @ b @ CHR ''.'' # e) =
           (case map_of mime_types (CHR ''.'' # py_lower e) of
              Some t \<Rightarrow> t | None \<Rightarrow> ''image/jpeg'')"
proof -
  have n: "path_name (d @ (b @ CHR ''.'' # e)) = b @ CHR ''.'' # e"
    using assms by (intro path_name_in_dir) (auto simp: append_eq_Cons_conv)
  have "path_suffix (d @ b @ CHR ''.'' # e) = CHR ''.'' # e"
    using assms n by (simp add: path_suffix_def name_suffix_ext)
  moreover have "lower_char CHR ''.'' = CHR ''.''"
    by (simp add: lower_char_def)
  ultimately show ?thesis
    by (simp add: get_image_mime_type_def py_lower_def)
qed

text \<open>
  Claim C10. \<^verbatim>\<open>get_image_mime_type\<close> returns one of its five MIME strings for every
  path. For a file \<open>b.e\<close> in any directory \<open>d\<close> the answer is decided by the lower-cased
  extension \<open>e\<close>: \<^verbatim>\<open>jpg\<close> and \<^verbatim>\<open>jpeg\<close> give \<^verbatim>\<open>image/jpeg\<close>, \<^verbatim>\<open>png\<close>,
  \<^verbatim>\<open>gif\<close>, \<^verbatim>\<open>webp\<close> and \<^verbatim>\<open>bmp\<close> give their own type, and every other
  extension gives \<^verbatim>\<open>image/jpeg\<close>.
\<close>

theorem get_image_mime_type_total:
  "get_image_mime_type p \<in>
     {''image/jpeg'', ''image/png'', ''image/gif'', ''image/webp'', ''image/bmp''}
   \<and> (b \<noteq> [] \<and> CHR ''/'' \<notin> set b \<and> e \<noteq> [] \<and> CHR ''/'' \<notin> set e \<and> CHR ''.'' \<notin> set e
        \<and> (d = [] \<or> last d = CHR ''/'') \<longrightarrow>
      get_image_mime_type (d @ b @ CHR ''.'' # e) =
        (if py_lower e = ''jpg'' \<or> py_lower e = ''jpeg'' then ''image/jpeg''
         else if py_lower e = ''png'' then ''image/png''
         else if py_lower e = ''gif'' then ''image/gif''
         else if py_lower e = ''webp'' then ''image/webp''
         else if py_lower e = ''bmp'' then ''image/bmp''
         else ''image/jpeg''))"
proof (intro conjI impI)
  show "get_image_mime_type p \<in>
     {''image/jpeg'', ''image/png'', ''image/gif'', ''image/webp'', ''image/bmp''}"
    by (rule mime_type_range)
next
  assume a: "b \<noteq> [] \<and> CHR ''/'' \<notin> set b \<and> e \<noteq> [] \<and> CHR ''/'' \<notin> set e \<and> CHR ''.'' \<notin> set e
        \<and> (d = [] \<or> last d = CHR ''/'')"
  then have "get_image_mime_type (d @ b @ CHR ''.'' # e) =
           (case map_of mime_types (CHR ''.'' # py_lower e) of
              Some t \<Rightarrow> t | None \<Rightarrow> ''image/jpeg'')"
    by (intro mime_type_of_ext) auto
  then show "get_image_mime_type (d @ b @ CHR ''.'' # e) =
        (if py_lower e = ''jpg'' \<or> py_lower e = ''jpeg'' then ''image/jpeg''
         else if py_lower e = ''png'' then ''image/png''
         else if py_lower e = ''gif'' then ''image/gif''
         else if py_lower e = ''webp'' then ''image/webp''
         else if py_lower e = ''bmp'' then ''image/bmp''
         else ''image/jpeg'')"
    by (simp add: mime_types_def)
qed

theorem get_image_mime_type_total_witness:
  "get_image_mime_type ''images/q1.PNG'' = ''image/png''
   \<and> get_image_mime_type ''images/q1.tiff'' = ''image/jpeg''
   \<and> get_image_mime_type ''images/q1.tiff'' \<in>
       {''image/jpeg'', ''image/png'', ''image/gif'', ''image/webp'', ''image/bmp''}"
proof -
  have l1: "py_lower ''PNG'' = ''png''" by code_simp
  have l2: "py_lower ''tiff'' = ''tiff''" by code_simp
  have "get_image_mime_type (''images/'' @ ''q1'' @ CHR ''.'' # ''PNG'') = ''image/png''"
    using get_image_mime_type_total [of "''images/q1.tiff''" "''q1''" "''PNG''" "''images/''"]
    by (simp add: l1)
  moreover have "get_image_mime_type (''images/'' @ ''q1'' @ CHR ''.'' # ''tiff'') = ''image/jpeg''
    \<and> get_image_mime_type ''images/q1.tiff'' \<in>
       {''image/jpeg'', ''image/png'', ''image/gif'', ''image/webp'', ''image/bmp''}"
    using get_image_mime_type_total [of "''images/q1.tiff''" "''q1''" "''tiff''" "''images/''"]
    by (simp add: l2)
  ultimately show ?thesis by simp
qed

section \<open>The natural order\<close>








section \<open>The summary report\<close>

lemma sum_tokens_value:
  "sum_tokens rs = Inr s \<Longrightarrow> s = sum_list (map token_usage rs)"
proof (induction rs arbitrary: s)
  case Nil
  then show ?case by simp
next
  case (Cons r rs)
  show ?case
  proof (cases r)
    case (Failure p e ty)
    with Cons show ?thesis by (simp add: token_usage_def)
  next
    case (Success p t m u a)
    with Cons.prems obtain x y where
      x: "result_tokens r = Inr x" and y: "sum_tokens rs = Inr y" and s: "s = x + y"
      by (auto split: sum.splits)
    from x Success have "x = token_usage r"
      by (auto simp: result_tokens_def token_usage_def split: option.splits)
    with Cons.IH [OF y] s show ?thesis by simp
  qed
qed

lemma sum_tokens_returns:
  "\<forall>r\<in>set rs. success r \<longrightarrow> usage r \<noteq> None \<Longrightarrow> \<exists>s. sum_tokens rs = Inr s"
proof (induction rs)
  case Nil
  show ?case by simp
next
  case (Cons r rs)
  then obtain y where y: "sum_tokens rs = Inr y" by auto
  show ?case
  proof (cases "success r")
    case False
    with y show ?thesis by simp
  next
    case True
    with Cons.prems obtain u where "usage r = Some u" by auto
    then have "result_tokens r = Inr (case total_tokens u of None \<Rightarrow> 0 | Some t \<Rightarrow> t)"
      by (simp add: result_tokens_def)
    with True y show ?thesis by simp
  qed
qed

lemma token_usage_failures: "\<not> success r \<Longrightarrow> token_usage r = 0"
  by (cases r) (simp_all add: token_usage_def)

lemma sum_token_usage_successes:
  "sum_list (map token_usage (filter success rs)) = sum_list (map token_usage rs)"
  by (induction rs) (simp_all add: token_usage_failures)

lemma length_filter_split:
  "int (length rs) - int (length (filter P rs)) = int (length (filter (\<lambda>r. \<not> P r) rs))"
  by (induction rs) simp_all

lemma create_summary_report_returns:
  assumes "results \<noteq> []" and "\<forall>r\<in>set results. success r \<longrightarrow> usage r \<noteq> None"
  shows "\<exists>s. create_summary_report results = Inr s"
proof -
  from assms(2) obtain t where "sum_tokens results = Inr t"
    using sum_tokens_returns [of results] by auto
  with assms(1) show ?thesis
    by (simp add: create_summary_report_def Let_def)
qed

text \<open>
  Claim C7. Whenever \<^verbatim>\<open>_create_summary_report\<close> produces its report for a list of
  results, the report's success count is the number of successes, its failure count the
  number of failures, the two add up to the total, which is the number of results, and the
  token total is the sum of the token usage of the successful results only. It produces
  the report for every non-empty list whose successes carry a \<^verbatim>\<open>usage\<close> object.
\<close>

theorem summary_reconciliation:
  "(\<forall>s. create_summary_report results = Inr s \<longrightarrow>
      successful s + failed s = total_images s
      \<and> total_images s = int (length results)
      \<and> successful s = int (length (filter success results))
      \<and> failed s = int (length (filter (\<lambda>r. \<not> success r) results))
      \<and> total_tokens_used s = sum_list (map token_usage (filter success results)))
   \<and> (results \<noteq> [] \<and> (\<forall>r\<in>set results. success r \<longrightarrow> usage r \<noteq> None) \<longrightarrow>
        (\<exists>s. create_summary_report results = Inr s))"
proof (intro conjI allI impI)
  fix s
  assume r: "create_summary_report results = Inr s"
  then obtain t where t: "sum_tokens results = Inr t"
    and s: "s = \<lparr>total_images = int (length results),
                 successful = int (length (filter success results)),
                 failed = int (length results) - int (length (filter success results)),
                 success_rate = of_int (int (length (filter success results)))
                                / of_int (int (length results)) * 100,
                 failed_images =
                   (if int (length results) - int (length (filter success results)) > 0
                    then map (\<lambda>r. (path_name (image_path r), error r))
                           (filter (\<lambda>r. \<not> success r) results)
                    else []),
                 total_tokens_used = t\<rparr>"
    by (auto simp: create_summary_report_def Let_def split: if_splits sum.splits)
  show "successful s + failed s = total_images s" by (simp add: s)
  show "total_images s = int (length results)" by (simp add: s)
  show "successful s = int (length (filter success results))" by (simp add: s)
  show "failed s = int (length (filter (\<lambda>r. \<not> success r) results))"
    by (simp add: s length_filter_split)
  show "total_tokens_used s = sum_list (map token_usage (filter success results))"
    using sum_tokens_value [OF t] by (simp add: s sum_token_usage_successes)
next
  assume "results \<noteq> [] \<and> (\<forall>r\<in>set results. success r \<longrightarrow> usage r \<noteq> None)"
  then show "\<exists>s. create_summary_report results = Inr s"
    by (intro create_summary_report_returns) simp_all
qed

theorem summary_reconciliation_witness:
  "create_summary_report
     [Success ''q1.jpeg'' ''text'' (Some ''m'') (Some \<lparr>total_tokens = Some 120\<rparr>) 1,
      Failure ''q3.jpeg'' (Some ''429 Client Error'') (Some ''HTTPError''),
      Success ''q2.jpeg'' ''text'' (Some ''m'') (Some \<lparr>total_tokens = Some 80\<rparr>) 2]
   = Inr \<lparr>total_images = 3, successful = 2, failed = 1, success_rate = 200 / 3,
          failed_images = [(''q3.jpeg'', Some ''429 Client Error'')],
          total_tokens_used = 200\<rparr>
   \<and> (\<exists>s. create_summary_report
         [Success ''q1.jpeg'' ''text'' (Some ''m'') (Some \<lparr>total_tokens = Some 120\<rparr>) 1,
          Failure ''q3.jpeg'' (Some ''429 Client Error'') (Some ''HTTPError''),
          Success ''q2.jpeg'' ''text'' (Some ''m'') (Some \<lparr>total_tokens = Some 80\<rparr>) 2]
        = Inr s \<and> successful s + failed s = total_images s \<and> total_tokens_used s = 200)"
proof -
  let ?rs = "[Success ''q1.jpeg'' ''text'' (Some ''m'') (Some \<lparr>total_tokens = Some 120\<rparr>) 1,
      Failure ''q3.jpeg'' (Some ''429 Client Error'') (Some ''HTTPError''),
      Success ''q2.jpeg'' ''text'' (Some ''m'') (Some \<lparr>total_tokens = Some 80\<rparr>) 2]"
  have n: "path_name ''q3.jpeg'' = ''q3.jpeg''"
    using path_name_in_dir [of "''q3.jpeg''" "[]"] by simp
  have v: "create_summary_report ?rs =
      Inr \<lparr>total_images = 3, successful = 2, failed = 1, success_rate = 200 / 3,
          failed_images = [(''q3.jpeg'', Some ''429 Client Error'')],
          total_tokens_used = 200\<rparr>"
    by (simp add: create_summary_report_def result_tokens_def n)
  obtain s where s: "create_summary_report ?rs = Inr s"
    using summary_reconciliation [of ?rs] by auto
  with summary_reconciliation [of ?rs]
  have "successful s + failed s = total_images s
        \<and> total_tokens_used s = sum_list (map token_usage (filter success ?rs))"
    by blast
  then have "successful s + failed s = total_images s \<and> total_tokens_used s = 200"
    by (simp add: token_usage_def)
  with s v show ?thesis by blast
qed

section \<open>One extraction: rate limits, explicit models, transient errors\<close>

lemma and_then_simps [simp]:
  "fst (and_then evs rt) = fst rt"
  "snd (and_then evs rt) = evs @ snd rt"
  by (simp_all add: and_then_def)

lemma posted_models_append [simp]:
  "posted_models (xs @ ys) = posted_models xs @ posted_models ys"
  by (induction xs rule: posted_models.induct) simp_all

text \<open>
  While the models answer 429 and another model is left, the loop moves on: if the first
  \<open>k\<close> models of the remaining list are rate limited and the next one answers, the
  result is that answer, found at attempt \<open>a + k\<close>, and exactly the first \<open>k + 1\<close>
  models were posted to.
\<close>

lemma try_models_rate_limited:
  assumes "\<forall>i<k. \<exists>msg. post (a + i) (ms ! i) = HTTPError msg (Some 429)"
    and "k < length ms"
    and "post (a + k) (ms ! k) = Ok r"
    and "a + length ms = n + 1"
  shows "fst (try_models post path True max_retries n a ms le lt) =
           Success path (content r) (response_model r) (response_usage r) (a + k)
         \<and> posted_models (snd (try_models post path True max_retries n a ms le lt)) =
             take (k + 1) ms"
  using assms
proof (induction k arbitrary: a ms le lt)
  case 0
  then obtain m ms' where ms: "ms = m # ms'" by (cases ms) auto
  with "0.prems" show ?case by simp
next
  case (Suc k)
  then obtain m ms' where ms: "ms = m # ms'" by (cases ms) auto
  from Suc.prems(1) obtain msg where m: "post a m = HTTPError msg (Some 429)"
    using ms by fastforce
  have lt_n: "a < n" using Suc.prems(2,4) by simp
  have 1: "\<forall>i<k. \<exists>msg. post (Suc a + i) (ms' ! i) = HTTPError msg (Some 429)"
  proof (intro allI impI)
    fix i assume "i < k"
    then have "Suc i < Suc k" by simp
    with Suc.prems(1) have "\<exists>msg. post (a + Suc i) (ms ! Suc i) = HTTPError msg (Some 429)"
      by blast
    then show "\<exists>msg. post (Suc a + i) (ms' ! i) = HTTPError msg (Some 429)"
      by (simp add: ms)
  qed
  have 2: "k < length ms'" using Suc.prems(2) ms by simp
  have 3: "post (Suc a + k) (ms' ! k) = Ok r" using Suc.prems(3) ms by simp
  have 4: "Suc a + length ms' = n + 1" using Suc.prems(4) ms by simp
  from Suc.IH [OF 1 2 3 4, of "Some msg" "Some ''HTTPError''"] m lt_n
  show ?case by (simp add: ms)
qed

text \<open>
  Claim C4. With the roster in use (no explicit model) and
  \<^verbatim>\<open>retry_with_other_models\<close> on, every 429 moves the call to the next model of the
  roster while one remains, and ends the call as a failure when none remains: if the
  first \<open>k\<close> models are rate limited and model
  \<open>k + 1\<close> answers, the call succeeds with \<^verbatim>\<open>attempts\<close> \<open>k + 1\<close>, its \<^verbatim>\<open>model\<close> is the
  identifier the response reports and only those \<open>k + 1\<close> models were posted to. For the
  roster \<open>[A, B]\<close>, \<open>A\<close> rate limited and \<open>B\<close> answering with its own identifier, the
  outcome is a success with \<^verbatim>\<open>attempts == 2\<close> and model \<open>B\<close>.
\<close>

theorem model_fallback_on_rate_limit:
  "(encode path = Inr b
      \<and> (\<forall>i<k. \<exists>msg. post (1 + i) (roster ! i) = HTTPError msg (Some 429))
      \<and> k < length roster \<and> post (1 + k) (roster ! k) = Ok r \<longrightarrow>
      fst (extract_text_from_image roster encode post path None True max_retries) =
        Success path (content r) (response_model r) (response_usage r) (k + 1)
      \<and> posted_models
          (snd (extract_text_from_image roster encode post path None True max_retries)) =
          take (k + 1) roster)
   \<and> (encode path = Inr b \<and> post 1 A = HTTPError msg (Some 429) \<and> post 2 B = Ok r
        \<and> response_model r = Some B \<longrightarrow>
      extract_text_from_image [A, B] encode post path None True max_retries =
        (Success path (content r) (Some B) (response_usage r) 2,
         [Post 1 A, Sleep 2, Post 2 B]))
   \<and> (post_at a m = HTTPError msg (Some 429) \<longrightarrow>
      try_models post_at path True max_retries (a + length later) a (m # later) le lt =
        (if later = [] then (Failure path (Some msg) (Some ''HTTPError''), [Post a m])
         else and_then [Post a m, Sleep 2]
                (try_models post_at path True max_retries (a + length later) (a + 1) later
                   (Some msg) (Some ''HTTPError''))))"
proof (intro conjI impI)
  assume a: "encode path = Inr b
      \<and> (\<forall>i<k. \<exists>msg. post (1 + i) (roster ! i) = HTTPError msg (Some 429))
      \<and> k < length roster \<and> post (1 + k) (roster ! k) = Ok r"
  then have "fst (try_models post path True max_retries (length roster) 1 roster None None) =
           Success path (content r) (response_model r) (response_usage r) (1 + k)
         \<and> posted_models
             (snd (try_models post path True max_retries (length roster) 1 roster None None)) =
             take (k + 1) roster"
    by (intro try_models_rate_limited) auto
  with a show "fst (extract_text_from_image roster encode post path None True max_retries) =
        Success path (content r) (response_model r) (response_usage r) (k + 1)"
    and "posted_models
          (snd (extract_text_from_image roster encode post path None True max_retries)) =
          take (k + 1) roster"
    by (simp_all add: extract_text_from_image_def models_to_try_def)
next
  assume "encode path = Inr b \<and> post 1 A = HTTPError msg (Some 429) \<and> post 2 B = Ok r
        \<and> response_model r = Some B"
  moreover have "(2::nat) = Suc 1" by simp
  ultimately show "extract_text_from_image [A, B] encode post path None True max_retries =
        (Success path (content r) (Some B) (response_usage r) 2,
         [Post 1 A, Sleep 2, Post 2 B])"
    by (simp add: extract_text_from_image_def models_to_try_def and_then_def)
next
  assume "post_at a m = HTTPError msg (Some 429)"
  then show "try_models post_at path True max_retries (a + length later) a (m # later) le lt =
        (if later = [] then (Failure path (Some msg) (Some ''HTTPError''), [Post a m])
         else and_then [Post a m, Sleep 2]
                (try_models post_at path True max_retries (a + length later) (a + 1) later
                   (Some msg) (Some ''HTTPError'')))"
    by simp
qed

theorem model_fallback_on_rate_limit_witness:
  "extract_text_from_image [''A'', ''B''] (\<lambda>p. Inr ''aGk='')
     (\<lambda>a m. if m = ''A'' then HTTPError ''429 Client Error'' (Some 429)
            else Ok \<lparr>content = ''1 + 1 = ?'', response_model = Some ''B'',
                     response_usage = Some \<lparr>total_tokens = Some 7\<rparr>\<rparr>)
     ''q1.jpeg'' None True 3 =
     (Success ''q1.jpeg'' ''1 + 1 = ?'' (Some ''B'') (Some \<lparr>total_tokens = Some 7\<rparr>) 2,
      [Post 1 ''A'', Sleep 2, Post 2 ''B''])
   \<and> posted_models (snd (extract_text_from_image [''A'', ''B''] (\<lambda>p. Inr ''aGk='')
     (\<lambda>a m. if m = ''A'' then HTTPError ''429 Client Error'' (Some 429)
            else Ok \<lparr>content = ''1 + 1 = ?'', response_model = Some ''B'',
                     response_usage = Some \<lparr>total_tokens = Some 7\<rparr>\<rparr>)
     ''q1.jpeg'' None True 3)) = [''A'', ''B'']
   \<and> try_models (\<lambda>a m. HTTPError ''429 Client Error'' (Some 429)) ''q1.jpeg'' True 3 2 2
       [''B''] None None =
     (Failure ''q1.jpeg'' (Some ''429 Client Error'') (Some ''HTTPError''), [Post 2 ''B''])"
proof -
  let ?post = "\<lambda>(a::nat) m. if m = ''A'' then HTTPError ''429 Client Error'' (Some 429)
            else Ok \<lparr>content = ''1 + 1 = ?'', response_model = Some ''B'',
                     response_usage = Some \<lparr>total_tokens = Some 7\<rparr>\<rparr>"
  let ?r = "\<lparr>content = ''1 + 1 = ?'', response_model = Some ''B'',
                     response_usage = Some \<lparr>total_tokens = Some 7\<rparr>\<rparr>"
  note inst = model_fallback_on_rate_limit
    [where encode = "\<lambda>p. Inr ''aGk=''" and path = "''q1.jpeg''" and b = "''aGk=''"
       and k = 1 and post = ?post and roster = "[''A'', ''B'']" and r = ?r
       and max_retries = 3 and A = "''A''" and B = "''B''" and msg = "''429 Client Error''"
       and post_at = "\<lambda>a m. HTTPError ''429 Client Error'' (Some 429)"
       and a = 2 and m = "''B''" and later = "[]" and le = None and lt = None]
  have h1: "\<forall>i<1. \<exists>msg. ?post (1 + i) ([''A'', ''B''] ! i) = HTTPError msg (Some 429)"
    by simp
  have h2: "?post (1 + 1) ([''A'', ''B''] ! 1) = Ok ?r" by simp
  from inst h1 h2
  have "posted_models (snd (extract_text_from_image [''A'', ''B''] (\<lambda>p. Inr ''aGk='') ?post
          ''q1.jpeg'' None True 3)) = take (1 + 1) [''A'', ''B'']"
    by simp
  moreover from inst
  have "extract_text_from_image [''A'', ''B''] (\<lambda>p. Inr ''aGk='') ?post ''q1.jpeg'' None True 3 =
     (Success ''q1.jpeg'' (content ?r) (Some ''B'') (response_usage ?r) 2,
      [Post 1 ''A'', Sleep 2, Post 2 ''B''])"
    by simp
  moreover from inst
  have "try_models (\<lambda>a m. HTTPError ''429 Client Error'' (Some 429)) ''q1.jpeg'' True 3
          (2 + length ([]::string list)) 2 [''B''] None None =
     (Failure ''q1.jpeg'' (Some ''429 Client Error'') (Some ''HTTPError''), [Post 2 ''B''])"
    by simp
  ultimately show ?thesis by simp
qed

text \<open>
  Claim C9. With an explicit (non-empty) model argument the roster is not used: whatever
  the roster, the network, \<^verbatim>\<open>retry_with_other_models\<close> and \<^verbatim>\<open>max_retries\<close> are, a
  call whose image can be read posts exactly one request, to that model, and a 429 or a
  400 from it ends the call as a failure with no further request.
\<close>

theorem explicit_model_bypasses_roster:
  "m \<noteq> [] \<and> encode path = Inr b \<longrightarrow>
     posted_models
       (snd (extract_text_from_image roster encode post path (Some m) retry max_retries)) = [m]
     \<and> (\<forall>msg. post 1 m = HTTPError msg (Some 429) \<or> post 1 m = HTTPError msg (Some 400) \<longrightarrow>
          extract_text_from_image roster encode post path (Some m) retry max_retries =
            (Failure path (Some msg) (Some ''HTTPError''), [Post 1 m]))"
proof (intro impI conjI allI)
  assume a: "m \<noteq> [] \<and> encode path = Inr b"
  then show "posted_models
       (snd (extract_text_from_image roster encode post path (Some m) retry max_retries)) = [m]"
    by (cases "post 1 m")
      (auto simp: extract_text_from_image_def models_to_try_def split: option.splits)
  fix msg
  assume "post 1 m = HTTPError msg (Some 429) \<or> post 1 m = HTTPError msg (Some 400)"
  with a show "extract_text_from_image roster encode post path (Some m) retry max_retries =
            (Failure path (Some msg) (Some ''HTTPError''), [Post 1 m])"
    by (auto simp: extract_text_from_image_def models_to_try_def)
qed

theorem explicit_model_bypasses_roster_witness:
  "extract_text_from_image [''A'', ''B''] (\<lambda>p. Inr ''aGk='')
     (\<lambda>a m. HTTPError ''429 Client Error'' (Some 429)) ''q1.jpeg'' (Some ''C'') True 3 =
     (Failure ''q1.jpeg'' (Some ''429 Client Error'') (Some ''HTTPError''), [Post 1 ''C''])"
  using explicit_model_bypasses_roster
    [of "''C''" "\<lambda>p. Inr ''aGk=''" "''q1.jpeg''" "''aGk=''" "[''A'', ''B'']"
        "\<lambda>a m. HTTPError ''429 Client Error'' (Some 429)" True 3]
  by simp

text \<open>
  An image that cannot be read: the call returns at once with the failure built from the
  exception and posts nothing.
\<close>

lemma unreadable_image_no_request:
  "encode path = Inl (msg, ty) \<Longrightarrow>
     extract_text_from_image roster encode post path model_arg retry max_retries =
       (Failure path (Some (''Failed to read image: '' @ msg)) (Some ty), [])"
  by (simp add: extract_text_from_image_def)



text \<open>
  A transient error at attempt \<open>a\<close> makes the loop sleep \<open>2 ^ a\<close> seconds and go on
  with the next model of the list, never with the same one.
\<close>

lemma transient_error_moves_on:
  "post a m = RequestException msg ty \<Longrightarrow> int a < max_retries \<Longrightarrow>
     try_models post path retry max_retries n a (m # ms) le lt =
       and_then [Post a m, Sleep (2 ^ a)]
         (try_models post path retry max_retries n (a + 1) ms (Some msg) (Some ty))"
  by simp

text \<open>
  Claim C3, on this script. With the roster of the class (one model), an image that can
  be read, the default \<^verbatim>\<open>max_retries=3\<close> and a network that times out, the call posts
  one request, sleeps two seconds and returns the failure: the same model is not tried
  again. A 503 ends the call after one request with no sleep. With two models in the
  roster the request after a timeout goes to the other model.
\<close>

theorem transient_error_is_not_retried:
  "extract_text_from_image default_vision_models (\<lambda>p. Inr ''aGk='')
     (\<lambda>a m. RequestException ''Read timed out.'' ''ReadTimeout'') ''q1.jpeg'' None True 3 =
     (Failure ''q1.jpeg'' (Some ''Read timed out.'') (Some ''ReadTimeout''),
      [Post 1 ''google/gemini-2.0-flash-001'', Sleep 2])
   \<and> extract_text_from_image default_vision_models (\<lambda>p. Inr ''aGk='')
     (\<lambda>a m. HTTPError ''503 Server Error'' (Some 503)) ''q1.jpeg'' None True 3 =
     (Failure ''q1.jpeg'' (Some ''503 Server Error'') (Some ''HTTPError''),
      [Post 1 ''google/gemini-2.0-flash-001''])
   \<and> extract_text_from_image [''A'', ''B''] (\<lambda>p. Inr ''aGk='')
     (\<lambda>a m. RequestException ''Read timed out.'' ''ReadTimeout'') ''q1.jpeg'' None True 3 =
     (Failure ''q1.jpeg'' (Some ''Read timed out.'') (Some ''ReadTimeout''),
      [Post 1 ''A'', Sleep 2, Post 2 ''B'', Sleep 4])"
  by (simp add: extract_text_from_image_def models_to_try_def default_vision_models_def
      and_then_def)

section \<open>extract\_images.py retries the same model with exponential backoff\<close>

lemma after_simps [simp]:
  "fst (after evs rt) = fst rt"
  "snd (after evs rt) = evs @ snd rt"
  by (simp_all add: after_def)

lemma retry_loop_backoff:
  assumes "\<forall>i<k. transient (post (a + i))"
    and "post (a + k) = Content t"
    and "k < left"
    and "int (a + left) = max_retries"
  shows "retry_loop post model_name max_retries a left =
           (Inr t, concat (map (\<lambda>i. [Post i model_name, Sleep (2 ^ i)]) [a..<a + k])
                   @ [Post (a + k) model_name])"
  using assms
proof (induction k arbitrary: a left)
  case 0
  then obtain l where "left = Suc l" by (cases left) auto
  with "0.prems" show ?case by simp
next
  case (Suc k)
  then obtain l where l: "left = Suc l" by (cases left) auto
  from Suc.prems(1) have t: "transient (post a)"
    by (metis add.right_neutral zero_less_Suc)
  have more: "int a < max_retries - 1"
    using Suc.prems(3,4) by simp
  have 1: "\<forall>i<k. transient (post (Suc a + i))"
    using Suc.prems(1) by (metis add_Suc_shift Suc_less_eq)
  have 2: "post (Suc a + k) = Content t" using Suc.prems(2) by simp
  have 3: "k < l" using Suc.prems(3) l by simp
  have 4: "int (Suc a + l) = max_retries" using Suc.prems(4) l by simp
  have step: "retry_loop post model_name max_retries a (Suc l) =
      after [Post a model_name, Sleep (2 ^ a)]
        (retry_loop post model_name max_retries (Suc a) l)"
    using t more by (cases "post a") (simp_all add: transient_def)
  have range: "[a..<a + Suc k] = a # [Suc a..<Suc a + k]"
    by (simp add: upt_conv_Cons)
  show ?case
    unfolding l step Suc.IH [OF 1 2 3 4] range
    by (simp add: after_def)
qed

text \<open>
  After \<open>k\<close> transient failures (a server error, a timeout or another request
  exception) with an answer at attempt \<open>k\<close>, \<open>k < max_retries\<close>, the text is returned,
  every request went to the one model, and the sleep after attempt \<open>i\<close> was \<open>2 ^ i\<close>
  seconds.
\<close>

lemma extract_images_retries_same_model:
  assumes "encode path = Inr b"
    and "\<forall>i<k. transient (post i)"
    and "post k = Content t"
    and "int k < max_retries"
  shows "extract_images_text encode post path model_name max_retries =
           (Inr t, concat (map (\<lambda>i. [Post i model_name, Sleep (2 ^ i)]) [0..<k])
                   @ [Post k model_name])"
proof -
  have "retry_loop post model_name max_retries 0 (nat max_retries) =
           (Inr t, concat (map (\<lambda>i. [Post i model_name, Sleep (2 ^ i)]) [0..<0 + k])
                   @ [Post (0 + k) model_name])"
    using assms by (intro retry_loop_backoff) auto
  with assms(1) show ?thesis by (simp add: extract_images_text_def)
qed

lemma extract_images_retry_example:
  "extract_images_text (\<lambda>p. Inr ''aGk='')
     (\<lambda>i. if i < 2 then Timeout else Content ''text'') ''q1.jpeg'' ''M'' 3 =
     (Inr ''text'', [Post 0 ''M'', Sleep 1, Post 1 ''M'', Sleep 2, Post 2 ''M''])"
  by code_simp

section \<open>The batch: one round\<close>

lemma extracted_not_error: "s @ ''_extracted.txt'' \<noteq> t @ ''_error.txt''"
proof
  assume "s @ ''_extracted.txt'' = t @ ''_error.txt''"
  then have "rev (s @ ''_extracted.txt'') = rev (t @ ''_error.txt'')" by simp
  then show False by simp
qed

lemma summary_not_extracted: "''summary_report.txt'' \<noteq> t @ ''_extracted.txt''"
proof
  assume "''summary_report.txt'' = t @ ''_extracted.txt''"
  then have "rev ''summary_report.txt'' = rev (t @ ''_extracted.txt'')" by simp
  then show False by simp
qed


lemma extracted_name_not_error_name: "extracted_name f \<noteq> error_name g"
  by (simp add: extracted_name_def error_name_def extracted_not_error)



text \<open>What one image and one round do to the output folder and to the events, raised or not.\<close>

lemma process_image_files:
  "k \<noteq> extracted_name f \<Longrightarrow> k \<noteq> error_name f \<Longrightarrow>
     files (final_state (process_image extract max_rounds r f st)) k = files st k"
  by (simp add: process_image_def final_state_def Let_def split: option.splits)

lemma process_image_trace:
  "set (trace (final_state (process_image extract max_rounds r f st)))
     \<subseteq> set (trace st) \<union> {(r, f, e) | e. True}"
  by (auto simp: process_image_def final_state_def Let_def split: option.splits)

lemma process_image_queue:
  "set (retry_queue (final_state (process_image extract max_rounds r f st)))
     \<subseteq> insert f (set (retry_queue st))"
  by (auto simp: process_image_def final_state_def Let_def split: option.splits)

lemma final_state_process_batch:
  "final_state (process_batch extract max_rounds r (f # batch) st) =
     (case process_image extract max_rounds r f st of
        Inl x \<Rightarrow> final_state (process_image extract max_rounds r f st)
      | Inr st1 \<Rightarrow> final_state (process_batch extract max_rounds r batch st1))"
  by (simp add: final_state_def split: sum.splits)

lemma process_batch_files:
  "k \<notin> extracted_name ` set batch \<Longrightarrow> k \<notin> error_name ` set batch \<Longrightarrow>
     files (final_state (process_batch extract max_rounds r batch st)) k = files st k"
proof (induction batch arbitrary: st)
  case Nil
  show ?case by (simp add: final_state_def)
next
  case (Cons f batch)
  then have k: "k \<noteq> extracted_name f" "k \<noteq> error_name f"
    and rest: "k \<notin> extracted_name ` set batch" "k \<notin> error_name ` set batch"
    by auto
  note img = process_image_files [OF k, of "extract" max_rounds r st]
  show ?case
  proof (cases "process_image extract max_rounds r f st")
    case (Inl x)
    with img show ?thesis by (simp add: final_state_process_batch)
  next
    case (Inr st1)
    with img have "files st1 k = files st k" by (simp add: final_state_def)
    with Cons.IH [OF rest, of st1] Inr show ?thesis
      by (simp add: final_state_process_batch)
  qed
qed

lemma process_batch_trace:
  "set (trace (final_state (process_batch extract max_rounds r batch st)))
     \<subseteq> set (trace st) \<union> {(r, f, e) | f e. f \<in> set batch}"
proof (induction batch arbitrary: st)
  case Nil
  show ?case by (simp add: final_state_def)
next
  case (Cons f batch)
  note img = process_image_trace [of "extract" max_rounds r f st]
  show ?case
  proof (cases "process_image extract max_rounds r f st")
    case (Inl x)
    with img show ?thesis by (auto simp: final_state_process_batch)
  next
    case (Inr st1)
    with img have "set (trace st1) \<subseteq> set (trace st) \<union> {(r, f, e) | e. True}"
      by (simp add: final_state_def)
    with Cons.IH [of st1] Inr show ?thesis
      by (auto simp: final_state_process_batch)
  qed
qed

lemma process_batch_queue:
  "set (retry_queue (final_state (process_batch extract max_rounds r batch st)))
     \<subseteq> set (retry_queue st) \<union> set batch"
proof (induction batch arbitrary: st)
  case Nil
  show ?case by (simp add: final_state_def)
next
  case (Cons f batch)
  note img = process_image_queue [of "extract" max_rounds r f st]
  show ?case
  proof (cases "process_image extract max_rounds r f st")
    case (Inl x)
    with img show ?thesis by (auto simp: final_state_process_batch)
  next
    case (Inr st1)
    with img have "set (retry_queue st1) \<subseteq> insert f (set (retry_queue st))"
      by (simp add: final_state_def)
    with Cons.IH [of st1] Inr show ?thesis
      by (auto simp: final_state_process_batch)
  qed
qed





section \<open>The batch: the rounds\<close>

declare run_rounds.simps [simp del]

lemma run_rounds_halts:
  "retry_queue st = [] \<or> max_rounds \<le> int r \<Longrightarrow> run_rounds ex max_rounds r st = Inr st"
  by (subst run_rounds.simps) auto

lemma run_rounds_step:
  "retry_queue st \<noteq> [] \<Longrightarrow> int r < max_rounds \<Longrightarrow>
     run_rounds ex max_rounds r st =
       (case process_batch ex max_rounds r (retry_queue st) (st\<lparr>retry_queue := []\<rparr>) of
          Inl x \<Rightarrow> Inl x
        | Inr st' \<Rightarrow> run_rounds ex max_rounds (r + 1) st')"
  by (subst run_rounds.simps) simp


text \<open>Raised or not, the rounds write only the files of queued images and make only
  requests for queued images, in rounds below \<^verbatim>\<open>max_retry_rounds\<close>.\<close>

lemma run_rounds_files:
  "k \<notin> extracted_name ` set (retry_queue st) \<Longrightarrow> k \<notin> error_name ` set (retry_queue st) \<Longrightarrow>
     files (final_state (run_rounds ex max_rounds r st)) k = files st k"
proof (induction ex max_rounds r st rule: run_rounds.induct)
  case (1 ex max_rounds r st)
  show ?case
  proof (cases "retry_queue st \<noteq> [] \<and> int r < max_rounds")
    case False
    then have "retry_queue st = [] \<or> max_rounds \<le> int r" by auto
    then show ?thesis by (simp add: run_rounds_halts final_state_def)
  next
    case True
    let ?b = "process_batch ex max_rounds r (retry_queue st) (st\<lparr>retry_queue := []\<rparr>)"
    have f1: "files (final_state ?b) k = files st k"
      using process_batch_files [OF "1.prems", of ex max_rounds r "st\<lparr>retry_queue := []\<rparr>"]
      by simp
    have q1: "set (retry_queue (final_state ?b)) \<subseteq> set (retry_queue st)"
      using process_batch_queue [of ex max_rounds r "retry_queue st" "st\<lparr>retry_queue := []\<rparr>"]
      by simp
    show ?thesis
    proof (cases ?b)
      case (Inl x)
      with True f1 show ?thesis by (simp add: run_rounds_step final_state_def)
    next
      case (Inr st1)
      with f1 q1 have s1: "files st1 k = files st k" "set (retry_queue st1) \<subseteq> set (retry_queue st)"
        by (simp_all add: final_state_def)
      with "1.prems" have "k \<notin> extracted_name ` set (retry_queue st1)"
        "k \<notin> error_name ` set (retry_queue st1)"
        by auto
      from "1.IH" [OF True Inr this] s1 True Inr show ?thesis
        by (simp add: run_rounds_step)
    qed
  qed
qed

lemma run_rounds_trace:
  "set (trace (final_state (run_rounds ex max_rounds r st)))
     \<subseteq> set (trace st)
        \<union> {(r', f, e) | r' f e. f \<in> set (retry_queue st) \<and> r \<le> r' \<and> int r' < max_rounds}"
proof (induction ex max_rounds r st rule: run_rounds.induct)
  case (1 ex max_rounds r st)
  show ?case
  proof (cases "retry_queue st \<noteq> [] \<and> int r < max_rounds")
    case False
    then have "retry_queue st = [] \<or> max_rounds \<le> int r" by auto
    then show ?thesis by (simp add: run_rounds_halts final_state_def)
  next
    case True
    let ?b = "process_batch ex max_rounds r (retry_queue st) (st\<lparr>retry_queue := []\<rparr>)"
    have t1: "set (trace (final_state ?b))
        \<subseteq> set (trace st) \<union> {(r, f, e) | f e. f \<in> set (retry_queue st)}"
      using process_batch_trace [of ex max_rounds r "retry_queue st" "st\<lparr>retry_queue := []\<rparr>"]
      by simp
    have q1: "set (retry_queue (final_state ?b)) \<subseteq> set (retry_queue st)"
      using process_batch_queue [of ex max_rounds r "retry_queue st" "st\<lparr>retry_queue := []\<rparr>"]
      by simp
    show ?thesis
    proof (cases ?b)
      case (Inl x)
      then have "final_state (run_rounds ex max_rounds r st) = final_state ?b"
        using True by (simp add: run_rounds_step final_state_def)
      with t1 True show ?thesis by auto
    next
      case (Inr st1)
      with t1 q1 have s1:
        "set (trace st1) \<subseteq> set (trace st) \<union> {(r, f, e) | f e. f \<in> set (retry_queue st)}"
        "set (retry_queue st1) \<subseteq> set (retry_queue st)"
        by (simp_all add: final_state_def)
      have same: "final_state (run_rounds ex max_rounds r st) =
            final_state (run_rounds ex max_rounds (r + 1) st1)"
        using True Inr by (simp add: run_rounds_step)
      have "set (trace (final_state (run_rounds ex max_rounds (r + 1) st1)))
        \<subseteq> set (trace st)
          \<union> {(r', f, e) | r' f e. f \<in> set (retry_queue st) \<and> r \<le> r' \<and> int r' < max_rounds}"
      proof
        fix x
        assume "x \<in> set (trace (final_state (run_rounds ex max_rounds (r + 1) st1)))"
        with "1.IH" [OF True Inr]
        have "x \<in> set (trace st1)
          \<or> (\<exists>r' f e. x = (r', f, e) \<and> f \<in> set (retry_queue st1) \<and> r + 1 \<le> r'
                \<and> int r' < max_rounds)"
          by auto
        then show "x \<in> set (trace st)
          \<union> {(r', f, e) | r' f e. f \<in> set (retry_queue st) \<and> r \<le> r' \<and> int r' < max_rounds}"
        proof
          assume "x \<in> set (trace st1)"
          with s1(1) have "x \<in> set (trace st) \<or> (\<exists>f e. x = (r, f, e) \<and> f \<in> set (retry_queue st))"
            by auto
          with True show ?thesis by auto
        next
          assume "\<exists>r' f e. x = (r', f, e) \<and> f \<in> set (retry_queue st1) \<and> r + 1 \<le> r'
                \<and> int r' < max_rounds"
          then obtain r' f e where "x = (r', f, e)" "f \<in> set (retry_queue st1)" "r + 1 \<le> r'"
            "int r' < max_rounds"
            by blast
          with s1(2) have "x = (r', f, e) \<and> f \<in> set (retry_queue st) \<and> r \<le> r'
            \<and> int r' < max_rounds"
            by auto
          then show ?thesis by blast
        qed
      qed
      with same show ?thesis by simp
    qed
  qed
qed


section \<open>The batch: whole runs\<close>





lemma files_to_process_subset:
  "set (files_to_process skip_existing files0 image_files) \<subseteq> set image_files"
  by (auto simp: files_to_process_def)


text \<open>The events and the files of a run are those of its rounds; the summary is one more file.\<close>

lemma batch_events:
  "events (batch_extract_from_folder roster encode post globbed files0 model_arg skip_existing
            max_rounds) =
     (if files_to_process skip_existing files0 (discover_images globbed) = [] then []
      else trace (final_state
             (run_rounds (extract_in_round roster encode post model_arg) max_rounds 0
                \<lparr>all_results = [],
                 retry_queue = files_to_process skip_existing files0 (discover_images globbed),
                 files = files0, trace = []\<rparr>)))"
  by (auto simp: batch_extract_from_folder_def Let_def final_state_def files_to_process_def
      split: sum.splits prod.splits)

lemma batch_files:
  "k \<noteq> ''summary_report.txt'' \<Longrightarrow>
   files_after (batch_extract_from_folder roster encode post globbed files0 model_arg
                  skip_existing max_rounds) k =
     (if files_to_process skip_existing files0 (discover_images globbed) = [] then files0 k
      else files (final_state
             (run_rounds (extract_in_round roster encode post model_arg) max_rounds 0
                \<lparr>all_results = [],
                 retry_queue = files_to_process skip_existing files0 (discover_images globbed),
                 files = files0, trace = []\<rparr>)) k)"
  by (auto simp: batch_extract_from_folder_def Let_def final_state_def files_to_process_def
      split: sum.splits prod.splits)

lemma batch_rounds_below_max:
  "(r, f, e) \<in> set (events (batch_extract_from_folder roster encode post globbed files0
      model_arg skip_existing max_rounds)) \<Longrightarrow>
   int r < max_rounds
   \<and> f \<in> set (files_to_process skip_existing files0 (discover_images globbed))"
proof -
  let ?q = "files_to_process skip_existing files0 (discover_images globbed)"
  let ?st = "\<lparr>all_results = [], retry_queue = ?q, files = files0, trace = []\<rparr>"
  assume a: "(r, f, e) \<in> set (events (batch_extract_from_folder roster encode post globbed
      files0 model_arg skip_existing max_rounds))"
  then have "?q \<noteq> []" by (auto simp: batch_events split: if_splits)
  with a have "(r, f, e) \<in> set (trace (final_state
      (run_rounds (extract_in_round roster encode post model_arg) max_rounds 0 ?st)))"
    by (simp add: batch_events)
  with run_rounds_trace [of "extract_in_round roster encode post model_arg" max_rounds 0 ?st]
  show ?thesis by auto
qed

section \<open>The round scheduler\<close>






section \<open>Skipping what is already extracted\<close>

lemma skipped_image_run:
  assumes "files0 (extracted_name j) = Some a"
  shows "j \<notin> set (files_to_process True files0 (discover_images globbed))"
    and "\<forall>(r, f, e) \<in> set (events (batch_extract_from_folder roster encode post globbed files0
             model_arg True max_rounds)). f \<noteq> j"
    and "files_after (batch_extract_from_folder roster encode post globbed files0
             model_arg True max_rounds) (extracted_name j) = Some a"
proof -
  let ?q = "files_to_process True files0 (discover_images globbed)"
  let ?st = "\<lparr>all_results = [], retry_queue = ?q, files = files0, trace = []\<rparr>"
  let ?run = "batch_extract_from_folder roster encode post globbed files0 model_arg True
                max_rounds"
  show notin: "j \<notin> set ?q"
    using assms by (simp add: files_to_process_def)
  show "\<forall>(r, f, e) \<in> set (events ?run). f \<noteq> j"
    using batch_rounds_below_max [of _ _ _ roster encode post globbed files0 model_arg True
        max_rounds] notin
    by fastforce
  have k1: "extracted_name j \<notin> extracted_name ` set ?q"
    using assms by (auto simp: files_to_process_def)
  have k2: "extracted_name j \<notin> error_name ` set ?q"
    using extracted_name_not_error_name by auto
  have k3: "extracted_name j \<noteq> ''summary_report.txt''"
    using summary_not_extracted [of "path_stem j"] by (simp add: extracted_name_def)
  have "files (final_state
          (run_rounds (extract_in_round roster encode post model_arg) max_rounds 0 ?st))
          (extracted_name j) = files0 (extracted_name j)"
    using run_rounds_files [of "extracted_name j" ?st
        "extract_in_round roster encode post model_arg" max_rounds 0] k1 k2
    by simp
  with k3 assms show "files_after ?run (extracted_name j) = Some a"
    by (simp add: batch_files)
qed

text \<open>
  Claim C6. With \<^verbatim>\<open>skip_existing\<close> on, an image whose \<^verbatim>\<open><stem>_extracted.txt\<close> is in
  the output folder before the run is not in the queue of the first round, no event of
  the run (so no request) is made for it, and after the run, whether it returned or
  raised, the file is what it was.
\<close>

theorem skip_existing_is_idempotent:
  "files0 (extracted_name j) = Some a \<longrightarrow>
     j \<notin> set (files_to_process True files0 (discover_images globbed))
     \<and> (\<forall>(r, f, e) \<in> set (events (batch_extract_from_folder roster encode post globbed files0
             model_arg True max_rounds)). f \<noteq> j)
     \<and> requests_for j (events (batch_extract_from_folder roster encode post globbed files0
             model_arg True max_rounds)) = []
     \<and> files_after (batch_extract_from_folder roster encode post globbed files0
             model_arg True max_rounds) (extracted_name j) = Some a"
proof (intro impI conjI)
  assume a: "files0 (extracted_name j) = Some a"
  show "j \<notin> set (files_to_process True files0 (discover_images globbed))"
    using a skipped_image_run(1) [where ?files0.0 = files0 and j = j and a = a] by blast
  show none: "\<forall>(r, f, e) \<in> set (events (batch_extract_from_folder roster encode post globbed
             files0 model_arg True max_rounds)). f \<noteq> j"
    using a skipped_image_run(2) [where ?files0.0 = files0 and j = j and a = a] by blast
  then show "requests_for j (events (batch_extract_from_folder roster encode post globbed files0
             model_arg True max_rounds)) = []"
    by (auto simp: requests_for_def filter_empty_conv)
  show "files_after (batch_extract_from_folder roster encode post globbed files0
             model_arg True max_rounds) (extracted_name j) = Some a"
    using a skipped_image_run(3) [where ?files0.0 = files0 and j = j and a = a] by blast
qed

lemma extracted_name_q1: "extracted_name ''q1.jpeg'' = ''q1_extracted.txt''"
proof -
  have "path_name ([] @ ''q1.jpeg'') = ''q1.jpeg''"
    by (rule path_name_in_dir) simp_all
  moreover have "name_stem (''q1'' @ CHR ''.'' # ''jpeg'') = ''q1''"
    by (rule name_stem_ext) simp_all
  ultimately show ?thesis by (simp add: extracted_name_def path_stem_def)
qed

theorem skip_existing_is_idempotent_witness:
  "requests_for ''q1.jpeg''
     (events (batch_extract_from_folder [''M''] (\<lambda>r f. Inr ''aGk='')
        (\<lambda>r f a m. Ok \<lparr>content = ''text'', response_model = Some m,
                       response_usage = Some \<lparr>total_tokens = Some 5\<rparr>\<rparr>)
        [''q1.jpeg'', ''q2.jpeg'']
        [''q1_extracted.txt'' \<mapsto> Extracted ''q1.jpeg'' (Some ''M'') 1 ''old text'' (TokensUsed 9)]
        None True 3)) = []
   \<and> files_after (batch_extract_from_folder [''M''] (\<lambda>r f. Inr ''aGk='')
        (\<lambda>r f a m. Ok \<lparr>content = ''text'', response_model = Some m,
                       response_usage = Some \<lparr>total_tokens = Some 5\<rparr>\<rparr>)
        [''q1.jpeg'', ''q2.jpeg'']
        [''q1_extracted.txt'' \<mapsto> Extracted ''q1.jpeg'' (Some ''M'') 1 ''old text'' (TokensUsed 9)]
        None True 3) ''q1_extracted.txt''
     = Some (Extracted ''q1.jpeg'' (Some ''M'') 1 ''old text'' (TokensUsed 9))"
  using skip_existing_is_idempotent
    [where j = "''q1.jpeg''"
       and ?files0.0 = "[''q1_extracted.txt'' \<mapsto>
             Extracted ''q1.jpeg'' (Some ''M'') 1 ''old text'' (TokensUsed 9)]"
       and a = "Extracted ''q1.jpeg'' (Some ''M'') 1 ''old text'' (TokensUsed 9)"
       and globbed = "[''q1.jpeg'', ''q2.jpeg'']" and roster = "[''M'']"
       and encode = "\<lambda>r f. Inr ''aGk=''"
       and post = "\<lambda>r f a m. Ok \<lparr>content = ''text'', response_model = Some m,
                       response_usage = Some \<lparr>total_tokens = Some 5\<rparr>\<rparr>"
       and model_arg = None and max_rounds = 3]
  by (simp add: extracted_name_q1)

section \<open>An image that cannot be read\<close>

text \<open>
  Claim C5, as the code has it. When reading or encoding the image raises,
  \<^verbatim>\<open>extract_text_from_image\<close> returns the failure with the error
  \<^verbatim>\<open>Failed to read image: ...\<close> and the type of the exception, and posts nothing. The
  batch treats this failure as any other: in a round that is not the last one the image
  is put into the retry queue, so it is read again in the next round; in the last round
  its error file is written and the failure is added to the results.
\<close>

theorem unreadable_image_fails_without_request:
  "(encode path = Inl (msg, ty) \<longrightarrow>
      extract_text_from_image roster encode post path model_arg retry max_retries =
        (Failure path (Some (''Failed to read image: '' @ msg)) (Some ty), []))
   \<and> (encode_in r f = Inl (msg, ty) \<longrightarrow>
      process_image (extract_in_round roster encode_in post_in model_arg) max_rounds r f st =
        Inr (if int r < max_rounds - 1 then st\<lparr>retry_queue := retry_queue st @ [f]\<rparr>
             else st\<lparr>files := (files st)(error_name f \<mapsto>
                         ErrorFile (path_name f) (Some (''Failed to read image: '' @ msg))
                           (Some ty) (r + 1)),
                      all_results := all_results st
                        @ [Failure f (Some (''Failed to read image: '' @ msg)) (Some ty)]\<rparr>))"
  by (simp add: unreadable_image_no_request extract_in_round_def process_image_def)

theorem unreadable_image_fails_without_request_witness:
  "extract_text_from_image [''M''] (\<lambda>p. Inl (''No such file'', ''FileNotFoundError''))
     (\<lambda>a m. Ok \<lparr>content = ''text'', response_model = Some m, response_usage = None\<rparr>)
     ''q1.jpeg'' None True 3 =
     (Failure ''q1.jpeg'' (Some ''Failed to read image: No such file'')
        (Some ''FileNotFoundError''), [])
   \<and> process_image
       (extract_in_round [''M''] (\<lambda>r p. Inl (''No such file'', ''FileNotFoundError''))
          (\<lambda>r f a m. Ok \<lparr>content = ''text'', response_model = Some m, response_usage = None\<rparr>)
          None)
       2 0 ''q1.jpeg''
       \<lparr>all_results = [], retry_queue = [], files = Map.empty, trace = []\<rparr> =
     Inr \<lparr>all_results = [], retry_queue = [''q1.jpeg''], files = Map.empty, trace = []\<rparr>"
  using unreadable_image_fails_without_request
    [where encode = "\<lambda>p. Inl (''No such file'', ''FileNotFoundError'')"
       and path = "''q1.jpeg''" and msg = "''No such file''" and ty = "''FileNotFoundError''"
       and roster = "[''M'']" and model_arg = None and retry = True and max_retries = 3
       and post = "\<lambda>a m. Ok \<lparr>content = ''text'', response_model = Some m,
                               response_usage = None\<rparr>"
       and encode_in = "\<lambda>r p. Inl (''No such file'', ''FileNotFoundError'')"
       and post_in = "\<lambda>r f a m. Ok \<lparr>content = ''text'', response_model = Some m,
                                    response_usage = None\<rparr>"
       and r = 0 and f = "''q1.jpeg''" and max_rounds = 2
       and st = "\<lparr>all_results = [], retry_queue = [], files = Map.empty, trace = []\<rparr>"]
  by simp

text \<open>
  The claim as stated fails: an image that could not be read in the first round is read
  again in the second, where a request is posted for it and the image ends as a success.
\<close>

theorem unreadable_image_is_retried:
  "returned (batch_extract_from_folder [''M'']
     (\<lambda>r f. if r = 0 then Inl (''No such file'', ''FileNotFoundError'') else Inr ''aGk='')
     (\<lambda>r f a m. Ok \<lparr>content = ''text'', response_model = Some m,
                    response_usage = Some \<lparr>total_tokens = Some 5\<rparr>\<rparr>)
     [''q1.jpeg''] Map.empty None True 2)
   = Inr [Success ''q1.jpeg'' ''text'' (Some ''M'') (Some \<lparr>total_tokens = Some 5\<rparr>) 1]
   \<and> events (batch_extract_from_folder [''M'']
     (\<lambda>r f. if r = 0 then Inl (''No such file'', ''FileNotFoundError'') else Inr ''aGk='')
     (\<lambda>r f a m. Ok \<lparr>content = ''text'', response_model = Some m,
                    response_usage = Some \<lparr>total_tokens = Some 5\<rparr>\<rparr>)
     [''q1.jpeg''] Map.empty None True 2)
   = [(1, ''q1.jpeg'', Post 1 ''M'')]"
  by code_simp

section \<open>The summary of a run without results\<close>

text \<open>
  Claim C8. On the empty list of results \<^verbatim>\<open>_create_summary_report\<close> does not emit a
  report stating zero jobs: the success rate divides by \<^verbatim>\<open>len(results)\<close> and the call
  ends in \<^verbatim>\<open>ZeroDivisionError\<close>. The batch reaches it with one image to process and
  \<^verbatim>\<open>max_retry_rounds=0\<close>: no round runs, the list of results is empty and the run ends
  in the exception, with no request made.
\<close>

theorem summary_of_no_results_divides_by_zero:
  "create_summary_report [] = Inl ZeroDivisionError
   \<and> returned (batch_extract_from_folder [''M''] (\<lambda>r f. Inr ''aGk='')
        (\<lambda>r f a m. Ok \<lparr>content = ''text'', response_model = Some m,
                       response_usage = Some \<lparr>total_tokens = Some 5\<rparr>\<rparr>)
        [''q1.jpeg''] Map.empty None True 0) = Inl ZeroDivisionError
   \<and> events (batch_extract_from_folder [''M''] (\<lambda>r f. Inr ''aGk='')
        (\<lambda>r f a m. Ok \<lparr>content = ''text'', response_model = Some m,
                       response_usage = Some \<lparr>total_tokens = Some 5\<rparr>\<rparr>)
        [''q1.jpeg''] Map.empty None True 0) = []"
  by code_simp

section \<open>The order of discovery\<close>






end
